theory Spec2Isabelle
  imports Complex_Main
begin

section \<open>Data model\<close>

text \<open>
  The feature extraction of \<^verbatim>\<open>data_plotter.py\<close> works on numpy arrays of float64.
  The model computes over the reals, the exact arithmetic that float64 approximates:
  rounding, overflow and infinities are not part of it. An exception of the source is
  an \<open>Inl\<close> outcome. \<open>NanValue\<close> is not an exception: it marks the one place where numpy
  computes a NaN from real input (the mean of an empty slice, reported by numpy as a
  RuntimeWarning only). The real-valued model stops there and does not follow the values
  past that point, whether or not the NaN would reach an element of a result.
\<close>

datatype error = ZeroDivisionError | ValueError | RuntimeError | IndexError | NanValue

text \<open>
  A two-dimensional array (event, sample) with its shape. The shape is kept beside the
  rows because an array with no events still has a sample count.
\<close>

record ndarray =
  dim0 :: nat
  dim1 :: nat
  rows :: "real list list"

definition wf :: "ndarray \<Rightarrow> bool" where
  "wf a \<longleftrightarrow> length (rows a) = dim0 a \<and> list_all (\<lambda>r. length r = dim1 a) (rows a)"

subsection \<open>The numpy operations the source uses\<close>

text \<open>The number of elements a Python slice \<^verbatim>\<open>[:k]\<close> keeps of \<open>n\<close>: a negative
  \<open>k\<close> counts from the end, and a stop beyond the end is clipped without an error.\<close>

definition slice_stop :: "int \<Rightarrow> nat \<Rightarrow> nat" where
  "slice_stop k n = (if 0 \<le> k then min (nat k) n else n - nat (- k))"

text \<open>\<^verbatim>\<open>a[:, :k]\<close>\<close>

definition take_cols :: "ndarray \<Rightarrow> int \<Rightarrow> ndarray" where
  "take_cols a k =
     \<lparr>dim0 = dim0 a, dim1 = slice_stop k (dim1 a),
      rows = map (take (slice_stop k (dim1 a))) (rows a)\<rparr>"

text \<open>\<^verbatim>\<open>np.mean(a, axis=-1)\<close>: one mean per row; NaN for every row when the rows are empty.\<close>

definition row_mean :: "real list \<Rightarrow> real" where
  "row_mean r = sum_list r / real (length r)"

definition np_mean :: "ndarray \<Rightarrow> error + real list" where
  "np_mean a =
     (if dim1 a = 0 \<and> 0 < dim0 a then Inl NanValue
      else Inr (map row_mean (rows a)))"

text \<open>\<^verbatim>\<open>a.T\<close>\<close>

definition T :: "ndarray \<Rightarrow> ndarray" where
  "T a = \<lparr>dim0 = dim1 a, dim1 = dim0 a,
          rows = map (\<lambda>j. map (\<lambda>r. r ! j) (rows a)) [0..<dim1 a]\<rparr>"

text \<open>\<^verbatim>\<open>a - v\<close> for a vector \<open>v\<close> as long as the rows of \<open>a\<close>: numpy broadcasts \<open>v\<close>
  over the rows.\<close>

definition sub_vec :: "ndarray \<Rightarrow> real list \<Rightarrow> ndarray" where
  "sub_vec a v = a\<lparr>rows := map (\<lambda>r. map2 (-) r v) (rows a)\<rparr>"

text \<open>\<^verbatim>\<open>c * a\<close> for a scalar \<open>c\<close>, and \<^verbatim>\<open>a + c\<close>.\<close>

definition scale :: "real \<Rightarrow> ndarray \<Rightarrow> ndarray" where
  "scale c a = a\<lparr>rows := map (map ((*) c)) (rows a)\<rparr>"

definition offset :: "real \<Rightarrow> ndarray \<Rightarrow> ndarray" where
  "offset c a = a\<lparr>rows := map (map (\<lambda>x. x + c)) (rows a)\<rparr>"

text \<open>The maximum of a non-empty row, and the index of its first occurrence
  (\<^verbatim>\<open>np.argmax\<close> returns the first one); likewise the first index of the minimum.\<close>

definition row_max :: "real list \<Rightarrow> real" where
  "row_max r = fold max (tl r) (hd r)"

definition row_argmax :: "real list \<Rightarrow> nat" where
  "row_argmax r = length (takeWhile (\<lambda>x. x \<noteq> row_max r) r)"

definition row_min :: "real list \<Rightarrow> real" where
  "row_min r = fold min (tl r) (hd r)"

definition row_argmin :: "real list \<Rightarrow> nat" where
  "row_argmin r = length (takeWhile (\<lambda>x. x \<noteq> row_min r) r)"

text \<open>\<^verbatim>\<open>np.max(a, axis=-1)\<close> and \<^verbatim>\<open>np.argmax(a, axis=-1)\<close>: both raise ValueError
  when the reduced axis is empty.\<close>

definition np_max :: "ndarray \<Rightarrow> error + real list" where
  "np_max a = (if dim1 a = 0 then Inl ValueError else Inr (map row_max (rows a)))"

definition np_argmax :: "ndarray \<Rightarrow> error + nat list" where
  "np_argmax a = (if dim1 a = 0 then Inl ValueError else Inr (map row_argmax (rows a)))"

section \<open>Voltage normalizer\<close>

text \<open>
  \<^verbatim>\<open>
  def calculate_voltages_raw(v_in, pedestal_length=400):
      v_pedestal = np.mean(v_in[:,:pedestal_length], axis=-1)
      v_preamp_adjusted = (v_in.T - v_pedestal).T
      return v_preamp_adjusted
  \<close>
\<close>

definition calculate_voltages_raw :: "ndarray \<Rightarrow> int \<Rightarrow> error + ndarray" where
  "calculate_voltages_raw v_in pedestal_length =
     (case np_mean (take_cols v_in pedestal_length) of
        Inl e \<Rightarrow> Inl e
      | Inr v_pedestal \<Rightarrow> Inr (T (sub_vec (T v_in) v_pedestal)))"

text \<open>
  \<^verbatim>\<open>
  def calculate_voltages(v_in, gain_post=-10, pedestal_length=400):
      gain_post_inv = 1.0/gain_post
      v_preamp_adjusted = gain_post_inv * calculate_voltages_raw(v_in, pedestal_length=pedestal_length)
      return v_preamp_adjusted
  \<close>
  \<open>gain_post\<close> is a Python number (the default, or an entry of \<open>scope_config['gains']\<close>),
  so \<^verbatim>\<open>1.0/gain_post\<close> raises ZeroDivisionError at zero, before anything else is computed.
\<close>

definition calculate_voltages :: "ndarray \<Rightarrow> real \<Rightarrow> int \<Rightarrow> error + ndarray" where
  "calculate_voltages v_in gain_post pedestal_length =
     (if gain_post = 0 then Inl ZeroDivisionError
      else
        let gain_post_inv = 1 / gain_post in
        case calculate_voltages_raw v_in pedestal_length of
          Inl e \<Rightarrow> Inl e
        | Inr v \<Rightarrow> Inr (scale gain_post_inv v))"

section \<open>Threshold-crossing time\<close>

text \<open>
  \<^verbatim>\<open>InterpolatedUnivariateSpline\<close> and \<^verbatim>\<open>optimize.newton\<close> are scipy functions, not code of
  the repository: they are parameters of the model. Fitting the interpolant returns a
  function or raises; the solver takes the function, the start value and the iteration
  cap and returns a number or raises (scipy raises RuntimeError when the cap is used up
  without convergence). Every call of either is recorded, with the event it is made for.
\<close>

type_synonym spline_lib = "real list \<Rightarrow> real list \<Rightarrow> error + (real \<Rightarrow> real)"
type_synonym newton_lib = "(real \<Rightarrow> real) \<Rightarrow> real \<Rightarrow> nat \<Rightarrow> error + real"

datatype lib_call = Spline_fit nat | Newton_run nat real nat

fun call_event :: "lib_call \<Rightarrow> nat" where
  "call_event (Spline_fit evt) = evt"
| "call_event (Newton_run evt start maxiter) = evt"

fun call_maxiter :: "lib_call \<Rightarrow> nat option" where
  "call_maxiter (Spline_fit evt) = None"
| "call_maxiter (Newton_run evt start maxiter) = Some maxiter"

text \<open>
  The body of the loop over the events, for one event:
  \<^verbatim>\<open>
        t0 = -1.0
        if idx_max[evt] > 0:
            spline = InterpolatedUnivariateSpline(time, v_preamp_pedsub[evt])
            start = time[np.argmin(abs(spline(time[:idx_max[evt]])-threshold[evt]))]
            t0 = optimize.newton(lambda x: spline(x)-threshold[evt], x0=start, maxiter=500)
  \<close>
  The result is the list of library calls made and the value of \<open>t0\<close>, or the exception.
\<close>

definition start_guess :: "(real \<Rightarrow> real) \<Rightarrow> real list \<Rightarrow> nat \<Rightarrow> real \<Rightarrow> real" where
  "start_guess spline time idx thr =
     time ! row_argmin (map (\<lambda>t. \<bar>spline t - thr\<bar>) (take idx time))"

definition tcross_event ::
  "spline_lib \<Rightarrow> newton_lib \<Rightarrow> real list \<Rightarrow> real list \<Rightarrow> nat \<Rightarrow> real \<Rightarrow> nat
   \<Rightarrow> lib_call list \<times> (error + real)" where
  "tcross_event fit newton time v idx thr evt =
     (if 0 < idx then
        (case fit time v of
           Inl e \<Rightarrow> ([Spline_fit evt], Inl e)
         | Inr spline \<Rightarrow>
             let start = start_guess spline time idx thr
             in ([Spline_fit evt, Newton_run evt start 500],
                 newton (\<lambda>x. spline x - thr) start 500))
      else ([], Inr (- 1)))"

text \<open>
  \<^verbatim>\<open>
    for evt in range(v_in.shape[0]):
        ...
        t0s[evt] = t0
    return t0s
  \<close>
  An exception in the body leaves the loop and the function.
\<close>

fun tcross_loop ::
  "spline_lib \<Rightarrow> newton_lib \<Rightarrow> real list \<Rightarrow> ndarray \<Rightarrow> nat list \<Rightarrow> real list \<Rightarrow> nat list
   \<Rightarrow> lib_call list \<Rightarrow> real list \<Rightarrow> lib_call list \<times> (error + real list)" where
  "tcross_loop fit newton time v idx_max threshold [] calls t0s = (calls, Inr t0s)"
| "tcross_loop fit newton time v idx_max threshold (evt # evts) calls t0s =
     (case tcross_event fit newton time (rows v ! evt) (idx_max ! evt) (threshold ! evt) evt of
        (cs, Inl e) \<Rightarrow> (calls @ cs, Inl e)
      | (cs, Inr t0) \<Rightarrow>
          tcross_loop fit newton time v idx_max threshold evts (calls @ cs) (t0s[evt := t0]))"

text \<open>
  \<^verbatim>\<open>
  def calculate_tcross(v_in, percent_thresh, dt, gain_post=-10, pedestal_length=400):
      v_preamp_pedsub = calculate_voltages(v_in, gain_post=gain_post,
                                           pedestal_length=pedestal_length)
      time = np.arange(v_in.shape[1])*dt
      idx_max = np.argmax(v_preamp_pedsub, axis=-1)
      threshold = np.max(v_preamp_pedsub, axis=-1)*percent_thresh
      t0s = np.zeros(v_in.shape[0])
  \<close>
  followed by the loop.
\<close>

definition arange_times :: "nat \<Rightarrow> real \<Rightarrow> real list" where
  "arange_times n dt = map (\<lambda>i. real i * dt) [0..<n]"

definition calculate_tcross ::
  "spline_lib \<Rightarrow> newton_lib \<Rightarrow> ndarray \<Rightarrow> real \<Rightarrow> real \<Rightarrow> real \<Rightarrow> int
   \<Rightarrow> lib_call list \<times> (error + real list)" where
  "calculate_tcross fit newton v_in percent_thresh dt gain_post pedestal_length =
     (case calculate_voltages v_in gain_post pedestal_length of
        Inl e \<Rightarrow> ([], Inl e)
      | Inr v_preamp_pedsub \<Rightarrow>
          let time = arange_times (dim1 v_in) dt in
          (case np_argmax v_preamp_pedsub of
             Inl e \<Rightarrow> ([], Inl e)
           | Inr idx_max \<Rightarrow>
               (case np_max v_preamp_pedsub of
                  Inl e \<Rightarrow> ([], Inl e)
                | Inr peak \<Rightarrow>
                    let threshold = map (\<lambda>m. m * percent_thresh) peak;
                        t0s = replicate (dim0 v_in) 0
                    in tcross_loop fit newton time v_preamp_pedsub idx_max threshold
                         [0..<dim0 v_in] [] t0s)))"

section \<open>Charge\<close>

text \<open>
  Modelled from the spec: \<^verbatim>\<open>scipy.integrate.simps\<close> is library code, not in the
  repository. Section 4.3 of the specification fixes the integration as a composite
  quadrature rule on the sample grid, the same for all events: a weighted sum of the
  samples whose weights depend on the grid only. The weights are a parameter; what the
  library does on a grid it rejects is not modelled.
\<close>

definition integrate_simps :: "(real list \<Rightarrow> real list) \<Rightarrow> real list \<Rightarrow> real list \<Rightarrow> real" where
  "integrate_simps weights y x = sum_list (map2 (*) (weights x) y)"

text \<open>
  \<^verbatim>\<open>
  def calculate_charge(v_in, dt, transCond, gain_post=-10, pedestal_length=400, charge_norm=1e15):
      v_preamp_pedsub = calculate_voltages(v_in, gain_post=gain_post,
                                           pedestal_length=pedestal_length)
      time = np.arange(v_in.shape[1])*dt
      norm = charge_norm/transCond
      return integrate.simps(norm*v_preamp_pedsub, time, axis=-1)
  \<close>
\<close>

definition calculate_charge ::
  "(real list \<Rightarrow> real list) \<Rightarrow> ndarray \<Rightarrow> real \<Rightarrow> real \<Rightarrow> real \<Rightarrow> int \<Rightarrow> real
   \<Rightarrow> error + real list" where
  "calculate_charge weights v_in dt transCond gain_post pedestal_length charge_norm =
     (case calculate_voltages v_in gain_post pedestal_length of
        Inl e \<Rightarrow> Inl e
      | Inr v_preamp_pedsub \<Rightarrow>
          let time = arange_times (dim1 v_in) dt in
          if transCond = 0 then Inl ZeroDivisionError
          else
            let normf = charge_norm / transCond in
            Inr (map (\<lambda>y. integrate_simps weights y time) (rows (scale normf v_preamp_pedsub))))"

section \<open>Amplitude and the coincidence mask\<close>

text \<open>
  The per-event peak of \<^verbatim>\<open>plot_amplitude\<close> and of the first lines of \<^verbatim>\<open>plotting_job\<close>:
  \<^verbatim>\<open>
      v_preamp_pedsub = calculate_voltages(dataset[ich], gain_post=gain_post,
                                           pedestal_length=pedestal_length)
      v_pk = np.max(v_preamp_pedsub, axis=-1)
  \<close>
\<close>

definition v_pk :: "ndarray \<Rightarrow> real \<Rightarrow> int \<Rightarrow> error + real list" where
  "v_pk v_in gain_post pedestal_length =
     (case calculate_voltages v_in gain_post pedestal_length of
        Inl e \<Rightarrow> Inl e
      | Inr v_preamp_pedsub \<Rightarrow> np_max v_preamp_pedsub)"

text \<open>
  \<^verbatim>\<open>
      ch1 = np.max(calculate_voltages(data[0], gain_post=scope_config['gains'][0]), axis=-1) > 0.015
      ch2 = np.max(calculate_voltages(data[1], gain_post=scope_config['gains'][1]), axis=-1) > 0.015
      ch3 = np.max(calculate_voltages(data[2], gain_post=scope_config['gains'][2]), axis=-1) > 0.015
      mask = (ch1 & ch2 & ch3)
  \<close>
  \<open>data\<close> is the capture, one array per channel; \<open>gains\<close> is \<open>scope_config['gains']\<close>.
\<close>

definition py_index :: "'a list \<Rightarrow> nat \<Rightarrow> error + 'a" where
  "py_index xs i = (if i < length xs then Inr (xs ! i) else Inl IndexError)"

definition above_threshold :: "real list \<Rightarrow> bool list" where
  "above_threshold amp = map (\<lambda>a. 0.015 < a) amp"

definition and_mask :: "bool list \<Rightarrow> bool list \<Rightarrow> bool list" where
  "and_mask xs ys = map2 (\<and>) xs ys"

definition coincidence :: "real list \<Rightarrow> real list \<Rightarrow> real list \<Rightarrow> bool list" where
  "coincidence amp1 amp2 amp3 =
     (let ch1 = above_threshold amp1; ch2 = above_threshold amp2; ch3 = above_threshold amp3
      in and_mask (and_mask ch1 ch2) ch3)"

definition channel_amplitude :: "ndarray list \<Rightarrow> real list \<Rightarrow> nat \<Rightarrow> error + real list" where
  "channel_amplitude data gains ch =
     (case py_index data ch of
        Inl e \<Rightarrow> Inl e
      | Inr v_in \<Rightarrow>
          (case py_index gains ch of
             Inl e \<Rightarrow> Inl e
           | Inr gain_post \<Rightarrow> v_pk v_in gain_post 400))"

definition plotting_job_mask :: "ndarray list \<Rightarrow> real list \<Rightarrow> error + bool list" where
  "plotting_job_mask data gains =
     (case channel_amplitude data gains 0 of
        Inl e \<Rightarrow> Inl e
      | Inr amp1 \<Rightarrow>
          (case channel_amplitude data gains 1 of
             Inl e \<Rightarrow> Inl e
           | Inr amp2 \<Rightarrow>
               (case channel_amplitude data gains 2 of
                  Inl e \<Rightarrow> Inl e
                | Inr amp3 \<Rightarrow> Inr (coincidence amp1 amp2 amp3))))"

section \<open>The watch loop\<close>

text \<open>
  \<^verbatim>\<open>
  processed_files = set()
  while True:
      files = set(glob.glob(os.path.join(data_path,'*.hdf5')))
      files_to_process = files - processed_files
      if len(files_to_process):
          for afile in tqdm(files_to_process):
              outfile = afile[:afile.rfind('.')].split('/')[-1] + '.pdf'
              fname = os.path.join(out_path, outfile)
              plotting_job(afile, scope_config, fname)
              processed_files.add(afile)
      else:
          time.sleep(1)
  \<close>
  What \<^verbatim>\<open>plotting_job\<close> does to one file is a parameter: it returns or raises. The
  directory is outside the program: the loop is run on the successive listings that
  \<^verbatim>\<open>glob\<close> returns, each in the order the for loop visits it. The state is the list of
  files \<^verbatim>\<open>plotting_job\<close> was called on and the set \<^verbatim>\<open>processed_files\<close>. The loop has no
  exit of its own: the result is the state together with \<open>Some e\<close> when the exception
  \<open>e\<close> has left the loop, and with \<open>None\<close> when the loop is still running after the
  listings observed so far.
\<close>

record watch_state =
  called :: "string list"
  processed_files :: "string set"

fun process_files ::
  "(string \<Rightarrow> error + unit) \<Rightarrow> string list \<Rightarrow> watch_state \<Rightarrow> watch_state \<times> error option" where
  "process_files plotting_job [] st = (st, None)"
| "process_files plotting_job (afile # files) st =
     (case plotting_job afile of
        Inl e \<Rightarrow> (st\<lparr>called := called st @ [afile]\<rparr>, Some e)
      | Inr u \<Rightarrow>
          process_files plotting_job files
            (st\<lparr>called := called st @ [afile],
                processed_files := insert afile (processed_files st)\<rparr>))"

fun watch_loop ::
  "(string \<Rightarrow> error + unit) \<Rightarrow> string list list \<Rightarrow> watch_state \<Rightarrow> watch_state \<times> error option" where
  "watch_loop plotting_job [] st = (st, None)"
| "watch_loop plotting_job (files # listings) st =
     (let files_to_process = filter (\<lambda>f. f \<notin> processed_files st) (remdups files) in
      if files_to_process \<noteq> [] then
        (case process_files plotting_job files_to_process st of
           (st', Some e) \<Rightarrow> (st', Some e)
         | (st', None) \<Rightarrow> watch_loop plotting_job listings st')
      else watch_loop plotting_job listings st)"

section \<open>Running the model: values for the library parameters\<close>

text \<open>
  To evaluate \<open>calculate_tcross\<close> on an input, the two library parameters need values. The
  examples use the piecewise-linear interpolant through the samples for the interpolant,
  and for the solver one of which a single behaviour is fixed: started on an exact root,
  it returns that root. scipy's interpolating spline passes through the samples as well,
  and its secant iteration started on an exact root returns that root; the examples
  depend on nothing else.
\<close>

fun interp :: "real list \<Rightarrow> real list \<Rightarrow> real \<Rightarrow> real" where
  "interp (t0 # t1 # ts) (v0 # v1 # vs) x =
     (if x \<le> t1 \<or> ts = [] then v0 + (v1 - v0) * (x - t0) / (t1 - t0)
      else interp (t1 # ts) (v1 # vs) x)"
| "interp ts vs x = (case vs of [] \<Rightarrow> 0 | v # _ \<Rightarrow> v)"

definition fit_interp :: spline_lib where
  "fit_interp time w = Inr (interp time w)"

definition solve_at_root :: newton_lib where
  "solve_at_root f x0 maxiter = (if f x0 = 0 then Inr x0 else Inl RuntimeError)"

section \<open>The specification's crossing time\<close>

text \<open>
  Section 4.4 of the specification defines the crossing time as the first time the rising
  edge of the waveform reaches the threshold level. Two consequences can be read off the
  samples. No sample taken before the first time the waveform reaches a level is at or
  above that level; \<open>reached_before\<close> says that some sample before \<open>t\<close> is. On the
  rising edge that leads to the peak, no sample between the crossing time and the peak is
  below the level; \<open>below_after\<close> says that some sample after \<open>t\<close> and before the peak, at
  index \<open>idx\<close>, is.
\<close>

definition reached_before :: "real list \<Rightarrow> real list \<Rightarrow> real \<Rightarrow> real \<Rightarrow> bool" where
  "reached_before time v level t = list_ex (\<lambda>(ti, vi). ti < t \<and> level \<le> vi) (zip time v)"

definition below_after :: "real list \<Rightarrow> real list \<Rightarrow> real \<Rightarrow> real \<Rightarrow> nat \<Rightarrow> bool" where
  "below_after time v level t idx =
     list_ex (\<lambda>(ti, vi). t < ti \<and> vi < level) (take idx (zip time v))"

section \<open>The specification's normalizer\<close>

text \<open>
  Section 4.1 of the specification: calibrated voltage is \<open>(raw - pedestal_mean) / gain\<close>,
  where \<open>pedestal_mean\<close> is the per-event mean of the first \<open>pedestal_window\<close> samples.
\<close>

definition pedestal_mean :: "nat \<Rightarrow> real list \<Rightarrow> real" where
  "pedestal_mean pedestal_window r =
     (let first = take pedestal_window r in sum_list first / real (length first))"

definition normalized :: "ndarray \<Rightarrow> nat \<Rightarrow> real \<Rightarrow> ndarray" where
  "normalized raw pedestal_window gain =
     raw\<lparr>rows := map (\<lambda>r. map (\<lambda>x. (x - pedestal_mean pedestal_window r) / gain) r) (rows raw)\<rparr>"

section \<open>Properties of the normalizer\<close>

lemma wf_rows: "wf a \<Longrightarrow> i < dim0 a \<Longrightarrow> length (rows a ! i) = dim1 a"
  by (simp add: wf_def list_all_length)

lemma wf_length: "wf a \<Longrightarrow> length (rows a) = dim0 a"
  by (simp add: wf_def)

text \<open>Transposing, subtracting one number per event and transposing back subtracts,
  in every row, that row's number.\<close>

lemma transpose_sub_transpose:
  assumes "wf a" and "length v = dim0 a"
  shows "T (sub_vec (T a) v) =
         a\<lparr>rows := map (\<lambda>i. map (\<lambda>x. x - v ! i) (rows a ! i)) [0..<dim0 a]\<rparr>"
proof -
  have len: "length (rows a) = dim0 a"
    using assms(1) by (rule wf_length)
  have "map (\<lambda>i. map (\<lambda>r. r ! i) (rows (sub_vec (T a) v))) [0..<dim0 a]
        = map (\<lambda>i. map (\<lambda>x. x - v ! i) (rows a ! i)) [0..<dim0 a]"
  proof (rule map_cong [OF refl])
    fix i
    assume "i \<in> set [0..<dim0 a]"
    then have i: "i < dim0 a" by simp
    have li: "length (rows a ! i) = dim1 a"
      using assms(1) i by (rule wf_rows)
    show "map (\<lambda>r. r ! i) (rows (sub_vec (T a) v)) = map (\<lambda>x. x - v ! i) (rows a ! i)"
    proof (rule nth_equalityI)
      show "length (map (\<lambda>r. r ! i) (rows (sub_vec (T a) v))) = length (map (\<lambda>x. x - v ! i) (rows a ! i))"
        by (simp add: li T_def sub_vec_def)
    next
      fix j
      assume "j < length (map (\<lambda>r. r ! i) (rows (sub_vec (T a) v)))"
      then have j: "j < dim1 a"
        by (simp add: T_def sub_vec_def)
      show "map (\<lambda>r. r ! i) (rows (sub_vec (T a) v)) ! j = map (\<lambda>x. x - v ! i) (rows a ! i) ! j"
        using i j len li assms(2) by (simp add: T_def sub_vec_def)
    qed
  qed
  then show ?thesis
    by (intro ndarray.equality) (simp_all add: T_def sub_vec_def del: map_map)
qed

text \<open>Under the shape invariant the normalizer works row by row.\<close>

lemma calculate_voltages_raw_rows:
  assumes "wf a"
  shows "calculate_voltages_raw a p =
         (if slice_stop p (dim1 a) = 0 \<and> 0 < dim0 a then Inl NanValue
          else Inr (a\<lparr>rows := map (\<lambda>r. map (\<lambda>x. x - row_mean (take (slice_stop p (dim1 a)) r)) r)
                                 (rows a)\<rparr>))"
proof -
  let ?k = "slice_stop p (dim1 a)"
  let ?v = "map row_mean (rows (take_cols a p))"
  have len: "length (rows a) = dim0 a"
    using assms by (rule wf_length)
  have lv: "length ?v = dim0 a"
    by (simp add: take_cols_def len)
  have "map (\<lambda>i. map (\<lambda>x. x - ?v ! i) (rows a ! i)) [0..<dim0 a]
        = map (\<lambda>r. map (\<lambda>x. x - row_mean (take ?k r)) r) (rows a)"
    by (rule nth_equalityI) (simp_all add: len take_cols_def)
  then have "T (sub_vec (T a) ?v) = a\<lparr>rows := map (\<lambda>r. map (\<lambda>x. x - row_mean (take ?k r)) r) (rows a)\<rparr>"
    using transpose_sub_transpose [OF assms lv] by simp
  then show ?thesis
    by (simp add: calculate_voltages_raw_def np_mean_def take_cols_def)
qed

lemma calculate_voltages_rows:
  assumes "wf a"
  shows "calculate_voltages a g p =
         (if g = 0 then Inl ZeroDivisionError
          else if slice_stop p (dim1 a) = 0 \<and> 0 < dim0 a then Inl NanValue
          else Inr (a\<lparr>rows := map (\<lambda>r. map (\<lambda>x. (x - row_mean (take (slice_stop p (dim1 a)) r)) / g) r)
                                 (rows a)\<rparr>))"
  by (simp add: calculate_voltages_def calculate_voltages_raw_rows [OF assms] scale_def comp_def)

lemma take_window:
  assumes "wf a" and "r \<in> set (rows a)"
  shows "take (slice_stop (int w) (dim1 a)) r = take w r"
proof -
  have "length r = dim1 a"
    using assms by (simp add: wf_def list_all_iff)
  then show ?thesis
    by (simp add: slice_stop_def min_def)
qed

text \<open>
  Claim C4. For a two-dimensional array of raw samples, a nonzero post-gain factor and a
  pedestal window of at least one sample, the voltage normalizer returns
  \<open>(raw - pedestal_mean) / gain\<close> elementwise, \<open>pedestal_mean\<close> being for each event the
  arithmetic mean of that event's first \<open>pedestal_window\<close> samples. The source multiplies
  by the reciprocal of the gain and subtracts through two transpositions; over the reals
  this is the same array.
\<close>

theorem calculate_voltages_normalizes:
  assumes "wf raw" and "gain \<noteq> 0" and "0 < pedestal_window" and "0 < dim1 raw"
  shows "calculate_voltages raw gain (int pedestal_window) = Inr (normalized raw pedestal_window gain)"
proof -
  have k: "slice_stop (int pedestal_window) (dim1 raw) \<noteq> 0"
    using assms(3,4) by (simp add: slice_stop_def min_def)
  have "map (\<lambda>r. map (\<lambda>x. (x - row_mean (take (slice_stop (int pedestal_window) (dim1 raw)) r)) / gain) r) (rows raw)
        = map (\<lambda>r. map (\<lambda>x. (x - pedestal_mean pedestal_window r) / gain) r) (rows raw)"
    by (rule map_cong [OF refl])
       (simp add: take_window [OF assms(1)] row_mean_def pedestal_mean_def Let_def)
  then show ?thesis
    using k assms(2) by (simp add: calculate_voltages_rows [OF assms(1)] normalized_def)
qed

theorem calculate_voltages_normalizes_witness:
  "wf \<lparr>dim0 = 2, dim1 = 3, rows = [[1, 2, 6], [0, 0, 3]]\<rparr> \<and> (- 10 :: real) \<noteq> 0 \<and> (0::nat) < 2
   \<and> calculate_voltages \<lparr>dim0 = 2, dim1 = 3, rows = [[1, 2, 6], [0, 0, 3]]\<rparr> (- 10) 2
       = Inr \<lparr>dim0 = 2, dim1 = 3, rows = [[1 / 20, - 1 / 20, - 9 / 20], [0, 0, - 3 / 10]]\<rparr>"
  using calculate_voltages_normalizes [of "\<lparr>dim0 = 2, dim1 = 3, rows = [[1, 2, 6], [0, 0, 3]]\<rparr>" "- 10" 2]
  by (simp add: wf_def normalized_def pedestal_mean_def)

text \<open>
  Claim C10. The normalizer needs a nonzero post-gain factor: it computes the reciprocal
  \<open>1 / gain_post\<close> first, so with \<open>gain_post = 0\<close> it raises ZeroDivisionError instead of
  producing a voltage, and so do the amplitude, the charge and the crossing time, which
  all start by normalizing. Zero is the only gain for which the normalizer does that.
\<close>

theorem gain_post_zero_undefined:
  "calculate_voltages v_in 0 pedestal_length = Inl ZeroDivisionError
   \<and> v_pk v_in 0 pedestal_length = Inl ZeroDivisionError
   \<and> calculate_charge weights v_in dt transCond 0 pedestal_length charge_norm = Inl ZeroDivisionError
   \<and> calculate_tcross fit newton v_in percent_thresh dt 0 pedestal_length = ([], Inl ZeroDivisionError)
   \<and> (calculate_voltages v_in gain_post pedestal_length = Inl ZeroDivisionError) = (gain_post = 0)"
  by (simp add: calculate_voltages_def v_pk_def calculate_charge_def calculate_tcross_def
      calculate_voltages_raw_def np_mean_def split: sum.splits)

lemma slice_stop_clip: "int n \<le> p \<Longrightarrow> slice_stop p n = n"
  by (auto simp: slice_stop_def min_def)

text \<open>
  Claim C5 says that a pedestal window longer than (or as long as) the event fails fast.
  The source has no such check: the slice \<^verbatim>\<open>v_in[:,:pedestal_length]\<close> is clipped to the
  samples there are. An event of three samples with the default window of 400 is
  normalized against the mean of its three samples.
\<close>

theorem pedestal_window_too_long_counterexample:
  "int (dim1 \<lparr>dim0 = 1, dim1 = 3, rows = [[1, 2, 6]]\<rparr>) < 400
   \<and> calculate_voltages_raw \<lparr>dim0 = 1, dim1 = 3, rows = [[1, 2, 6]]\<rparr> 400
       = Inr \<lparr>dim0 = 1, dim1 = 3, rows = [[- 2, - 1, 3]]\<rparr>
   \<and> calculate_voltages \<lparr>dim0 = 1, dim1 = 3, rows = [[1, 2, 6]]\<rparr> (- 10) 400
       = Inr \<lparr>dim0 = 1, dim1 = 3, rows = [[1 / 5, 1 / 10, - 3 / 10]]\<rparr>"
  by (simp add: calculate_voltages_def calculate_voltages_raw_def np_mean_def take_cols_def
      slice_stop_def T_def sub_vec_def scale_def row_mean_def upt_rec)

text \<open>
  Claim C5, amended. When the pedestal window is at least as long as the events (of one
  sample or more), the normalizer does not fail: the window is cut to the samples of the
  event, the pedestal is the mean of the whole event, and the result is the one for a
  window of exactly the sample count.
\<close>

theorem pedestal_window_truncated:
  assumes "wf v_in" and "0 < dim1 v_in" and "int (dim1 v_in) \<le> pedestal_length" and "gain_post \<noteq> 0"
  shows "calculate_voltages_raw v_in pedestal_length
           = Inr (v_in\<lparr>rows := map (\<lambda>r. map (\<lambda>x. x - row_mean r) r) (rows v_in)\<rparr>)
         \<and> calculate_voltages v_in gain_post pedestal_length
           = Inr (v_in\<lparr>rows := map (\<lambda>r. map (\<lambda>x. (x - row_mean r) / gain_post) r) (rows v_in)\<rparr>)
         \<and> calculate_voltages v_in gain_post pedestal_length
           = calculate_voltages v_in gain_post (int (dim1 v_in))"
proof -
  have k: "slice_stop pedestal_length (dim1 v_in) = dim1 v_in"
    using assms(3) by (rule slice_stop_clip)
  have k': "slice_stop (int (dim1 v_in)) (dim1 v_in) = dim1 v_in"
    by (rule slice_stop_clip) simp
  have all: "take (dim1 v_in) r = r" if "r \<in> set (rows v_in)" for r
    using assms(1) that by (simp add: wf_def list_all_iff)
  have a: "map (\<lambda>r. map (\<lambda>x. x - row_mean (take (dim1 v_in) r)) r) (rows v_in)
           = map (\<lambda>r. map (\<lambda>x. x - row_mean r) r) (rows v_in)"
    by (rule map_cong [OF refl]) (simp add: all)
  have b: "map (\<lambda>r. map (\<lambda>x. (x - row_mean (take (dim1 v_in) r)) / gain_post) r) (rows v_in)
           = map (\<lambda>r. map (\<lambda>x. (x - row_mean r) / gain_post) r) (rows v_in)"
    by (rule map_cong [OF refl]) (simp add: all)
  show ?thesis
    using assms(2,4) a b
    by (simp add: calculate_voltages_raw_rows [OF assms(1)] calculate_voltages_rows [OF assms(1)] k k')
qed

theorem pedestal_window_truncated_witness:
  "wf \<lparr>dim0 = 1, dim1 = 3, rows = [[1, 2, 6]]\<rparr> \<and> (0::nat) < 3 \<and> (3::int) \<le> 400 \<and> (- 10 :: real) \<noteq> 0
   \<and> calculate_voltages_raw \<lparr>dim0 = 1, dim1 = 3, rows = [[1, 2, 6]]\<rparr> 400
       = Inr \<lparr>dim0 = 1, dim1 = 3, rows = [[- 2, - 1, 3]]\<rparr>
   \<and> calculate_voltages \<lparr>dim0 = 1, dim1 = 3, rows = [[1, 2, 6]]\<rparr> (- 10) 400
       = Inr \<lparr>dim0 = 1, dim1 = 3, rows = [[1 / 5, 1 / 10, - 3 / 10]]\<rparr>"
  using pedestal_window_truncated [of "\<lparr>dim0 = 1, dim1 = 3, rows = [[1, 2, 6]]\<rparr>" 400 "- 10"]
  by (simp add: wf_def row_mean_def)

lemma sum_list_shift: "sum_list (map (\<lambda>x. x + c) xs) = sum_list xs + real (length xs) * (c::real)"
  by (induction xs) (simp_all add: algebra_simps)

lemma row_mean_shift: "xs \<noteq> [] \<Longrightarrow> row_mean (map (\<lambda>x. x + c) xs) = row_mean xs + c"
  by (simp add: row_mean_def sum_list_shift add_divide_distrib)

lemma wf_offset: "wf a \<Longrightarrow> wf (offset c a)"
  by (simp add: wf_def offset_def list_all_iff)

lemma offset_sel:
  "dim0 (offset c a) = dim0 a" "dim1 (offset c a) = dim1 a"
  "rows (offset c a) = map (map (\<lambda>x. x + c)) (rows a)"
  "(offset c a)\<lparr>rows := X\<rparr> = a\<lparr>rows := X\<rparr>"
  by (simp_all add: offset_def)

lemma normalize_row_offset:
  assumes "take k r \<noteq> [] \<or> r = []"
  shows "map (\<lambda>x. (x - row_mean (take k (map (\<lambda>x. x + c) r))) / g) (map (\<lambda>x. x + c) r)
         = map (\<lambda>x. (x - row_mean (take k r)) / g) r"
proof (cases "r = []")
  case True
  then show ?thesis by simp
next
  case False
  with assms have "take k r \<noteq> []" by simp
  then have "row_mean (take k (map (\<lambda>x. x + c) r)) = row_mean (take k r) + c"
    by (simp add: take_map row_mean_shift)
  then show ?thesis by simp
qed

lemma calculate_voltages_offset:
  assumes "wf raw"
  shows "calculate_voltages (offset c raw) gain_post pedestal_length
         = calculate_voltages raw gain_post pedestal_length"
proof (cases "slice_stop pedestal_length (dim1 raw) = 0 \<and> 0 < dim0 raw")
  case True
  then show ?thesis
    by (simp add: calculate_voltages_rows [OF assms] calculate_voltages_rows [OF wf_offset [OF assms]]
        offset_sel)
next
  case False
  let ?k = "slice_stop pedestal_length (dim1 raw)"
  have nonempty: "take ?k r \<noteq> [] \<or> r = []" if "r \<in> set (rows raw)" for r
  proof -
    have l: "length r = dim1 raw"
      using assms that by (simp add: wf_def list_all_iff)
    have "rows raw \<noteq> []"
      using that by auto
    then have "0 < dim0 raw"
      using wf_length [OF assms] by (metis length_greater_0_conv)
    with False have "?k \<noteq> 0" by simp
    then show ?thesis by auto
  qed
  have "map ((\<lambda>r. map (\<lambda>x. (x - row_mean (take ?k r)) / gain_post) r) \<circ> map (\<lambda>x. x + c)) (rows raw)
        = map (\<lambda>r. map (\<lambda>x. (x - row_mean (take ?k r)) / gain_post) r) (rows raw)"
    by (rule map_cong [OF refl], simp only: o_apply, rule normalize_row_offset, rule nonempty)
  then have eq: "map (\<lambda>r. map (\<lambda>x. (x - row_mean (take ?k r)) / gain_post) r) (map (map (\<lambda>x. x + c)) (rows raw))
        = map (\<lambda>r. map (\<lambda>x. (x - row_mean (take ?k r)) / gain_post) r) (rows raw)"
    by (simp only: map_map)
  show ?thesis
    by (simp only: calculate_voltages_rows [OF assms] calculate_voltages_rows [OF wf_offset [OF assms]]
        offset_sel eq)
qed

text \<open>
  Claim C8. The per-event peak amplitude of the normalized voltage does not change when a
  constant is added to every raw sample, pedestal window and signal alike: the pedestal
  moves by the same constant. The normalized voltages themselves are the same.
\<close>

theorem amplitude_offset_invariant:
  assumes "wf raw"
  shows "v_pk (offset c raw) gain_post pedestal_length = v_pk raw gain_post pedestal_length"
  by (simp add: v_pk_def calculate_voltages_offset [OF assms])

theorem amplitude_offset_invariant_witness:
  "wf \<lparr>dim0 = 2, dim1 = 3, rows = [[1, 2, 6], [0, 0, - 3]]\<rparr>
   \<and> v_pk (offset 5 \<lparr>dim0 = 2, dim1 = 3, rows = [[1, 2, 6], [0, 0, - 3]]\<rparr>) (- 1) 2 = Inr [1 / 2, 3]
   \<and> v_pk \<lparr>dim0 = 2, dim1 = 3, rows = [[1, 2, 6], [0, 0, - 3]]\<rparr> (- 1) 2 = Inr [1 / 2, 3]"
proof -
  have w: "wf \<lparr>dim0 = 2, dim1 = 3, rows = [[1, 2, 6], [0, 0, - 3]]\<rparr>"
    by (simp add: wf_def)
  have "v_pk \<lparr>dim0 = 2, dim1 = 3, rows = [[1, 2, 6], [0, 0, - 3]]\<rparr> (- 1) 2 = Inr [1 / 2, 3]"
    by (simp add: v_pk_def calculate_voltages_rows [OF w] slice_stop_def row_mean_def np_max_def row_max_def)
  with w amplitude_offset_invariant [OF w, of 5 "- 1" 2] show ?thesis
    by simp
qed


section \<open>Properties of the charge\<close>

lemma scale_sel:
  "dim0 (scale c a) = dim0 a" "dim1 (scale c a) = dim1 a"
  "rows (scale c a) = map (map ((*) c)) (rows a)"
  "(scale c a)\<lparr>rows := X\<rparr> = a\<lparr>rows := X\<rparr>"
  by (simp_all add: scale_def)

lemma wf_scale: "wf a \<Longrightarrow> wf (scale c a)"
  by (simp add: wf_def scale_def list_all_iff)

lemma row_mean_scale: "row_mean (map ((*) k) xs) = k * row_mean xs"
  by (simp add: row_mean_def sum_list_const_mult)

lemma normalize_row_scale:
  "map (\<lambda>x. (x - row_mean (take n (map ((*) k) r))) / g) (map ((*) k) r)
   = map ((*) k) (map (\<lambda>x. (x - row_mean (take n r)) / g) r)"
  by (simp add: take_map row_mean_scale right_diff_distrib [symmetric])

lemma scale_update: "scale k (a\<lparr>rows := X\<rparr>) = a\<lparr>rows := map (map ((*) k)) X\<rparr>"
  by (simp add: scale_def)

lemma calculate_voltages_scale:
  assumes "wf v_in"
  shows "calculate_voltages (scale k v_in) gain_post pedestal_length
         = (case calculate_voltages v_in gain_post pedestal_length of
              Inl e \<Rightarrow> Inl e
            | Inr v \<Rightarrow> Inr (scale k v))"
proof -
  let ?n = "slice_stop pedestal_length (dim1 v_in)"
  have "map ((\<lambda>r. map (\<lambda>x. (x - row_mean (take ?n r)) / gain_post) r) \<circ> map ((*) k)) (rows v_in)
        = map (map ((*) k) \<circ> (\<lambda>r. map (\<lambda>x. (x - row_mean (take ?n r)) / gain_post) r)) (rows v_in)"
    by (rule map_cong [OF refl], simp only: o_apply, rule normalize_row_scale)
  then have eq: "map (\<lambda>r. map (\<lambda>x. (x - row_mean (take ?n r)) / gain_post) r) (map (map ((*) k)) (rows v_in))
        = map (map ((*) k)) (map (\<lambda>r. map (\<lambda>x. (x - row_mean (take ?n r)) / gain_post) r) (rows v_in))"
    by (simp only: map_map)
  show ?thesis
    by (simp only: calculate_voltages_rows [OF assms] calculate_voltages_rows [OF wf_scale [OF assms]]
        scale_sel scale_update eq sum.case if_distrib [of "case_sum Inl (\<lambda>v. Inr (scale k v))"])
qed

lemma integrate_simps_scale:
  "integrate_simps weights (map ((*) k) y) x = k * integrate_simps weights y x"
proof -
  have "sum_list (map2 (*) ws (map ((*) k) y)) = k * sum_list (map2 (*) ws y)" for ws :: "real list"
    by (induction ws y rule: list_induct2') (simp_all add: algebra_simps)
  then show ?thesis
    by (simp only: integrate_simps_def)
qed

text \<open>
  Claim C7. The charge extractor is linear in its voltage input: the charge of the input
  scaled by a constant \<open>k\<close> is \<open>k\<close> times the charge of the input, for every event, sample
  interval, transconductance and quadrature weights; when the extractor raises, it raises
  the same for both inputs.
\<close>

theorem calculate_charge_linear:
  assumes "wf v_in"
  shows "calculate_charge weights (scale k v_in) dt transCond gain_post pedestal_length charge_norm
         = (case calculate_charge weights v_in dt transCond gain_post pedestal_length charge_norm of
              Inl e \<Rightarrow> Inl e
            | Inr charge \<Rightarrow> Inr (map ((*) k) charge))"
proof -
  have row: "integrate_simps weights (map ((*) c \<circ> (*) k) y) x
             = k * integrate_simps weights (map ((*) c) y) x" for c y x
  proof -
    have "map ((*) c \<circ> (*) k) y = map ((*) k) (map ((*) c) y)"
      by (simp add: comp_def mult.left_commute)
    then show ?thesis
      by (simp only: integrate_simps_scale)
  qed
  show ?thesis
    by (simp add: calculate_charge_def calculate_voltages_scale [OF assms] scale_sel row
        split: sum.splits)
qed

theorem calculate_charge_linear_witness:
  "wf \<lparr>dim0 = 2, dim1 = 3, rows = [[0, 3, 6], [1, 1, 0]]\<rparr>
   \<and> calculate_charge (\<lambda>x. [1 / 3, 4 / 3, 1 / 3]) \<lparr>dim0 = 2, dim1 = 3, rows = [[0, 3, 6], [1, 1, 0]]\<rparr> 1 2 (- 1) 1 4
       = Inr [- 12, 2 / 3]
   \<and> calculate_charge (\<lambda>x. [1 / 3, 4 / 3, 1 / 3]) (scale 5 \<lparr>dim0 = 2, dim1 = 3, rows = [[0, 3, 6], [1, 1, 0]]\<rparr>) 1 2 (- 1) 1 4
       = Inr [- 60, 10 / 3]"
proof -
  have w: "wf \<lparr>dim0 = 2, dim1 = 3, rows = [[0, 3, 6], [1, 1, 0]]\<rparr>"
    by (simp add: wf_def)
  have "calculate_charge (\<lambda>x. [1 / 3, 4 / 3, 1 / 3]) \<lparr>dim0 = 2, dim1 = 3, rows = [[0, 3, 6], [1, 1, 0]]\<rparr> 1 2 (- 1) 1 4
       = Inr [- 12, 2 / 3]"
    by (simp add: calculate_charge_def calculate_voltages_rows [OF w] slice_stop_def row_mean_def
        scale_def integrate_simps_def)
  with w calculate_charge_linear [OF w, of "\<lambda>x. [1 / 3, 4 / 3, 1 / 3]" 5 1 2 "- 1" 1 4] show ?thesis
    by simp
qed


section \<open>Properties of the coincidence mask\<close>

lemma v_pk_length:
  assumes "wf v_in" and "v_pk v_in gain_post pedestal_length = Inr amp"
  shows "length amp = dim0 v_in"
  using assms(2) wf_length [OF assms(1)]
  by (auto simp: v_pk_def calculate_voltages_rows [OF assms(1)] np_max_def split: if_splits)

lemma channel_amplitude_length:
  assumes "channel_amplitude data gains ch = Inr amp" and "wf (data ! ch)"
  shows "length amp = dim0 (data ! ch)"
  using assms
  by (auto simp: channel_amplitude_def py_index_def v_pk_length split: if_splits sum.splits)

lemma coincidence_nth:
  assumes "length amp1 = n" and "length amp2 = n" and "length amp3 = n" and "evt < n"
  shows "coincidence amp1 amp2 amp3 ! evt
         = (0.015 < amp1 ! evt \<and> 0.015 < amp2 ! evt \<and> 0.015 < amp3 ! evt)"
  using assms by (simp add: coincidence_def and_mask_def above_threshold_def)

lemma coincidence_length:
  assumes "length amp1 = n" and "length amp2 = n" and "length amp3 = n"
  shows "length (coincidence amp1 amp2 amp3) = n"
  using assms by (simp add: coincidence_def and_mask_def above_threshold_def)

text \<open>
  Claim C6. The coincidence mask of \<^verbatim>\<open>plotting_job\<close> is, for every event, the conjunction
  over the three gated channels (the first three of the capture) of the test
  \<open>amplitude > 0.015\<close>, the amplitude being the per-event peak of the channel's normalized
  voltage; three channels with amplitudes 0.02, 0.02 and 0.001 give the mask False.
\<close>

theorem coincidence_mask_is_and:
  assumes "plotting_job_mask data gains = Inr selected"
    and "wf (data ! 0) \<and> wf (data ! 1) \<and> wf (data ! 2)"
    and "dim0 (data ! 0) = events \<and> dim0 (data ! 1) = events \<and> dim0 (data ! 2) = events"
    and "evt < events"
  shows "(\<exists>amp1 amp2 amp3.
            channel_amplitude data gains 0 = Inr amp1
          \<and> channel_amplitude data gains 1 = Inr amp2
          \<and> channel_amplitude data gains 2 = Inr amp3
          \<and> length selected = events
          \<and> selected ! evt = (0.015 < amp1 ! evt \<and> 0.015 < amp2 ! evt \<and> 0.015 < amp3 ! evt))
         \<and> coincidence [0.02] [0.02] [0.001] = [False]"
proof -
  from assms(1) obtain amp1 amp2 amp3 where
    a1: "channel_amplitude data gains 0 = Inr amp1" and
    a2: "channel_amplitude data gains 1 = Inr amp2" and
    a3: "channel_amplitude data gains 2 = Inr amp3" and
    m: "selected = coincidence amp1 amp2 amp3"
    by (auto simp: plotting_job_mask_def split: sum.splits)
  have l1: "length amp1 = events"
    using channel_amplitude_length [OF a1] assms(2,3) by simp
  have l2: "length amp2 = events"
    using channel_amplitude_length [OF a2] assms(2,3) by simp
  have l3: "length amp3 = events"
    using channel_amplitude_length [OF a3] assms(2,3) by simp
  have "length selected = events"
    unfolding m using l1 l2 l3 by (rule coincidence_length)
  moreover have "selected ! evt = (0.015 < amp1 ! evt \<and> 0.015 < amp2 ! evt \<and> 0.015 < amp3 ! evt)"
    unfolding m using l1 l2 l3 assms(4) by (rule coincidence_nth)
  moreover have "coincidence [0.02] [0.02] [0.001] = [False]"
    by (simp add: coincidence_def and_mask_def above_threshold_def)
  ultimately show ?thesis
    using a1 a2 a3 by blast
qed

theorem coincidence_mask_is_and_witness:
  "plotting_job_mask
     [\<lparr>dim0 = 2, dim1 = 2, rows = [[0, - 0.04], [0, - 0.04]]\<rparr>,
      \<lparr>dim0 = 2, dim1 = 2, rows = [[0, - 0.04], [0, - 0.04]]\<rparr>,
      \<lparr>dim0 = 2, dim1 = 2, rows = [[0, - 0.002], [0, - 0.04]]\<rparr>,
      \<lparr>dim0 = 2, dim1 = 2, rows = [[0, - 0.04], [0, - 0.04]]\<rparr>]
     [- 1, - 1, - 1, 1] = Inr [False, True]
   \<and> channel_amplitude
     [\<lparr>dim0 = 2, dim1 = 2, rows = [[0, - 0.04], [0, - 0.04]]\<rparr>,
      \<lparr>dim0 = 2, dim1 = 2, rows = [[0, - 0.04], [0, - 0.04]]\<rparr>,
      \<lparr>dim0 = 2, dim1 = 2, rows = [[0, - 0.002], [0, - 0.04]]\<rparr>,
      \<lparr>dim0 = 2, dim1 = 2, rows = [[0, - 0.04], [0, - 0.04]]\<rparr>]
     [- 1, - 1, - 1, 1] 2 = Inr [0.001, 0.02]
   \<and> coincidence [0.02] [0.02] [0.001] = [False]"
proof -
  let ?A = "\<lparr>dim0 = 2, dim1 = 2, rows = [[0, - 0.04], [0, - 0.04 :: real]]\<rparr>"
  let ?B = "\<lparr>dim0 = 2, dim1 = 2, rows = [[0, - 0.002], [0, - 0.04 :: real]]\<rparr>"
  let ?data = "[?A, ?A, ?B, ?A]"
  let ?gains = "[- 1, - 1, - 1, 1 :: real]"
  have amp: "channel_amplitude ?data ?gains 0 = Inr [0.02, 0.02]"
    "channel_amplitude ?data ?gains 1 = Inr [0.02, 0.02]"
    "channel_amplitude ?data ?gains 2 = Inr [0.001, 0.02]"
    by (simp_all add: channel_amplitude_def py_index_def v_pk_def calculate_voltages_def
        calculate_voltages_raw_def np_mean_def take_cols_def slice_stop_def T_def sub_vec_def
        scale_def row_mean_def upt_rec np_max_def row_max_def)
  have sel: "plotting_job_mask ?data ?gains = Inr [False, True]"
    unfolding plotting_job_mask_def amp
    by (simp add: coincidence_def and_mask_def above_threshold_def)
  have shape: "wf (?data ! 0) \<and> wf (?data ! 1) \<and> wf (?data ! 2)"
    "dim0 (?data ! 0) = 2 \<and> dim0 (?data ! 1) = 2 \<and> dim0 (?data ! 2) = 2"
    by (simp_all add: wf_def)
  have "(0::nat) < 2" by simp
  from coincidence_mask_is_and [OF sel shape this] sel amp(3) show ?thesis
    by simp
qed


section \<open>Properties of the crossing-time loop\<close>

lemma row_max_Max: "r \<noteq> [] \<Longrightarrow> row_max r = Max (set r)"
  by (cases r) (simp_all add: row_max_def Max.set_eq_fold [symmetric])

text \<open>When no sample exceeds the first one, the first index of the maximum is 0.\<close>

lemma row_argmax_first:
  assumes "\<forall>x\<in>set r. x \<le> r ! 0"
  shows "row_argmax r = 0"
proof (cases r)
  case Nil
  then show ?thesis by (simp add: row_argmax_def)
next
  case (Cons x xs)
  then have "Max (set r) = x"
    using assms by (intro Max_eqI) auto
  then show ?thesis
    using Cons by (simp add: row_argmax_def row_max_Max)
qed

text \<open>What the loop records, what it returns and when it raises.\<close>

lemma tcross_event_calls:
  assumes "c \<in> set (fst (tcross_event fit newton time w idx thr evt))"
  shows "call_event c = evt \<and> 0 < idx \<and> (call_maxiter c = None \<or> call_maxiter c = Some 500)"
  using assms by (auto simp: tcross_event_def Let_def split: if_splits sum.splits)

lemma tcross_loop_calls:
  assumes "c \<in> set (fst (tcross_loop fit newton time v idx_max threshold evts calls t0s))"
  shows "c \<in> set calls \<or>
         (\<exists>evt\<in>set evts. c \<in> set (fst (tcross_event fit newton time (rows v ! evt)
                                       (idx_max ! evt) (threshold ! evt) evt)))"
  using assms
proof (induction evts arbitrary: calls t0s)
  case Nil
  then show ?case by simp
next
  case (Cons evt evts)
  obtain cs r where ev: "tcross_event fit newton time (rows v ! evt) (idx_max ! evt) (threshold ! evt) evt = (cs, r)"
    by (cases "tcross_event fit newton time (rows v ! evt) (idx_max ! evt) (threshold ! evt) evt")
  show ?case
  proof (cases r)
    case (Inl e)
    with Cons.prems ev show ?thesis by auto
  next
    case (Inr t0)
    with Cons.prems ev
    have "c \<in> set (fst (tcross_loop fit newton time v idx_max threshold evts (calls @ cs) (t0s[evt := t0])))"
      by simp
    from Cons.IH [OF this] ev show ?thesis by auto
  qed
qed

lemma tcross_loop_untouched:
  assumes "tcross_loop fit newton time v idx_max threshold evts calls t0s = (calls', Inr t0s')"
    and "evt \<notin> set evts"
  shows "t0s' ! evt = t0s ! evt"
  using assms
proof (induction evts arbitrary: calls t0s)
  case Nil
  then show ?case by simp
next
  case (Cons a evts)
  obtain cs r where ev: "tcross_event fit newton time (rows v ! a) (idx_max ! a) (threshold ! a) a = (cs, r)"
    by (cases "tcross_event fit newton time (rows v ! a) (idx_max ! a) (threshold ! a) a")
  show ?case
  proof (cases r)
    case (Inl e)
    with Cons.prems ev show ?thesis by simp
  next
    case (Inr t0)
    with Cons.prems ev
    have "tcross_loop fit newton time v idx_max threshold evts (calls @ cs) (t0s[a := t0]) = (calls', Inr t0s')"
      by simp
    from Cons.IH [OF this] Cons.prems(2) show ?thesis by simp
  qed
qed

lemma tcross_loop_value:
  assumes "tcross_loop fit newton time v idx_max threshold evts calls t0s = (calls', Inr t0s')"
    and "distinct evts" and "evt \<in> set evts" and "evt < length t0s"
  shows "snd (tcross_event fit newton time (rows v ! evt) (idx_max ! evt) (threshold ! evt) evt)
         = Inr (t0s' ! evt)"
  using assms
proof (induction evts arbitrary: calls t0s)
  case Nil
  then show ?case by simp
next
  case (Cons a evts)
  obtain cs r where ev: "tcross_event fit newton time (rows v ! a) (idx_max ! a) (threshold ! a) a = (cs, r)"
    by (cases "tcross_event fit newton time (rows v ! a) (idx_max ! a) (threshold ! a) a")
  show ?case
  proof (cases r)
    case (Inl e)
    with Cons.prems ev show ?thesis by simp
  next
    case (Inr t0)
    with Cons.prems ev
    have rest: "tcross_loop fit newton time v idx_max threshold evts (calls @ cs) (t0s[a := t0]) = (calls', Inr t0s')"
      by simp
    show ?thesis
    proof (cases "evt = a")
      case True
      then have "evt \<notin> set evts"
        using Cons.prems(2) by simp
      from tcross_loop_untouched [OF rest this] Cons.prems(4) True ev Inr show ?thesis
        by simp
    next
      case False
      then have "evt \<in> set evts"
        using Cons.prems(3) by simp
      moreover have "distinct evts"
        using Cons.prems(2) by simp
      moreover have "evt < length (t0s[a := t0])"
        using Cons.prems(4) by simp
      ultimately show ?thesis
        using Cons.IH [OF rest] by simp
    qed
  qed
qed

lemma tcross_loop_raises:
  assumes "evt \<in> set evts"
    and "snd (tcross_event fit newton time (rows v ! evt) (idx_max ! evt) (threshold ! evt) evt) = Inl e"
  shows "\<exists>e'. snd (tcross_loop fit newton time v idx_max threshold evts calls t0s) = Inl e'"
  using assms
proof (induction evts arbitrary: calls t0s)
  case Nil
  then show ?case by simp
next
  case (Cons a evts)
  obtain cs r where ev: "tcross_event fit newton time (rows v ! a) (idx_max ! a) (threshold ! a) a = (cs, r)"
    by (cases "tcross_event fit newton time (rows v ! a) (idx_max ! a) (threshold ! a) a")
  show ?case
  proof (cases r)
    case (Inl e)
    with ev show ?thesis by simp
  next
    case (Inr t0)
    with ev Cons.prems have "evt \<in> set evts" by auto
    from Cons.IH [OF this Cons.prems(2)] ev Inr show ?thesis by simp
  qed
qed


lemma normalized_shape:
  assumes "wf v_in" and "calculate_voltages v_in g p = Inr v"
  shows "length (rows v) = dim0 v_in" and "dim1 v = dim1 v_in" and "dim0 v = dim0 v_in"
  using assms(2) wf_length [OF assms(1)]
  by (auto simp: calculate_voltages_rows [OF assms(1)] split: if_splits)

lemma calculate_tcross_loop:
  assumes "calculate_voltages v_in g p = Inr v"
  shows "calculate_tcross fit newton v_in pt dt g p =
         (if dim1 v = 0 then ([], Inl ValueError)
          else tcross_loop fit newton (arange_times (dim1 v_in) dt) v (map row_argmax (rows v))
                 (map (\<lambda>m. m * pt) (map row_max (rows v))) [0..<dim0 v_in] []
                 (replicate (dim0 v_in) 0))"
  by (simp add: calculate_tcross_def assms np_argmax_def np_max_def)

lemma replicate_2: "replicate 2 x = [x, x]"
  by (simp add: numeral_2_eq_2)

lemma arange_3: "arange_times 3 1 = [0, 1, 2]"
  by (simp add: arange_times_def upt_rec)

lemmas tcross_eval = replicate_2
  calculate_tcross_def calculate_voltages_def calculate_voltages_raw_def np_mean_def take_cols_def
  slice_stop_def T_def sub_vec_def scale_def row_mean_def upt_rec np_max_def row_max_def
  np_argmax_def row_argmax_def tcross_event_def start_guess_def row_argmin_def row_min_def
  arange_times_def

text \<open>
  Claim C2. For an event whose normalized voltage has its maximum at sample index 0,
  neither the interpolant nor the root-finder is called for that event, whatever happens
  to the other events, and when \<^verbatim>\<open>calculate_tcross\<close> returns, the crossing time of that
  event is the sentinel \<open>-1\<close>, a value at most \<open>-0.5\<close>.
\<close>

theorem peak_at_first_sample_sentinel:
  assumes "wf v_in"
    and "calculate_voltages v_in gain_post pedestal_length = Inr v"
    and "evt < dim0 v_in"
    and "\<forall>x\<in>set (rows v ! evt). x \<le> rows v ! evt ! 0"
    and "calculate_tcross fit newton v_in percent_thresh dt gain_post pedestal_length = (calls, result)"
  shows "(\<forall>c\<in>set calls. call_event c \<noteq> evt)
         \<and> (\<forall>t0s. result = Inr t0s \<longrightarrow> t0s ! evt = - 1 \<and> t0s ! evt \<le> - 0.5)"
proof (cases "dim1 v = 0")
  case True
  with assms(5) show ?thesis
    by (auto simp: calculate_tcross_loop [OF assms(2)])
next
  case False
  let ?time = "arange_times (dim1 v_in) dt"
  let ?idx = "map row_argmax (rows v)"
  let ?thr = "map (\<lambda>m. m * percent_thresh) (map row_max (rows v))"
  let ?event = "\<lambda>i. tcross_event fit newton ?time (rows v ! i) (?idx ! i) (?thr ! i) i"
  have loop: "tcross_loop fit newton ?time v ?idx ?thr [0..<dim0 v_in] [] (replicate (dim0 v_in) 0)
              = (calls, result)"
    using assms(5) False by (simp add: calculate_tcross_loop [OF assms(2)])
  have len: "length (rows v) = dim0 v_in"
    using assms(1,2) by (rule normalized_shape)
  have "?idx ! evt = 0"
    using assms(3,4) len by (simp add: row_argmax_first)
  then have event: "?event evt = ([], Inr (- 1))"
    by (simp add: tcross_event_def)
  have no_call: "call_event c \<noteq> evt" if "c \<in> set calls" for c
  proof
    assume c: "call_event c = evt"
    have "c \<in> set (fst (tcross_loop fit newton ?time v ?idx ?thr [0..<dim0 v_in] []
                           (replicate (dim0 v_in) 0)))"
      using that loop by simp
    from tcross_loop_calls [OF this] obtain i where "c \<in> set (fst (?event i))"
      by auto
    moreover from tcross_event_calls [OF this] c have "i = evt"
      by simp
    ultimately show False
      using event by simp
  qed
  have sentinel: "t0s ! evt = - 1" if "result = Inr t0s" for t0s
  proof -
    have l: "tcross_loop fit newton ?time v ?idx ?thr [0..<dim0 v_in] [] (replicate (dim0 v_in) 0)
             = (calls, Inr t0s)"
      using loop that by simp
    have "snd (?event evt) = Inr (t0s ! evt)"
      by (rule tcross_loop_value [OF l]) (use assms(3) in simp_all)
    with event show ?thesis by simp
  qed
  show ?thesis
    using no_call sentinel by simp
qed

theorem peak_at_first_sample_sentinel_witness:
  "calculate_tcross fit_interp solve_at_root
     \<lparr>dim0 = 2, dim1 = 3, rows = [[5, 3, 1], [0, 2, 4]]\<rparr> (1 / 2) 1 1 1
   = ([Spline_fit 1, Newton_run 1 1 500], Inr [- 1, 1])
   \<and> calculate_voltages \<lparr>dim0 = 2, dim1 = 3, rows = [[5, 3, 1], [0, 2, 4]]\<rparr> 1 1
   = Inr \<lparr>dim0 = 2, dim1 = 3, rows = [[0, - 2, - 4], [0, 2, 4]]\<rparr>
   \<and> call_event (Spline_fit 1) \<noteq> 0 \<and> call_event (Newton_run 1 1 500) \<noteq> 0
   \<and> [- 1, 1 :: real] ! 0 = - 1"
proof -
  let ?v_in = "\<lparr>dim0 = 2, dim1 = 3, rows = [[5, 3, 1], [0, 2, 4 :: real]]\<rparr>"
  let ?v = "\<lparr>dim0 = 2, dim1 = 3, rows = [[0, - 2, - 4], [0, 2, 4 :: real]]\<rparr>"
  have w: "wf ?v_in"
    by (simp add: wf_def)
  have v: "calculate_voltages ?v_in 1 1 = Inr ?v"
    by (simp add: tcross_eval)
  have e: "(0::nat) < dim0 ?v_in"
    by simp
  have first: "\<forall>x\<in>set (rows ?v ! 0). x \<le> rows ?v ! 0 ! 0"
    by simp
  have t: "calculate_tcross fit_interp solve_at_root ?v_in (1 / 2) 1 1 1
           = ([Spline_fit 1, Newton_run 1 1 500], Inr [- 1, 1])"
    unfolding calculate_tcross_def v
    by (simp add: np_argmax_def np_max_def arange_3 row_argmax_def row_max_def tcross_event_def
        fit_interp_def start_guess_def row_argmin_def row_min_def solve_at_root_def replicate_2
        upt_rec)
  from peak_at_first_sample_sentinel [OF w v e first t] t v show ?thesis
    by simp
qed

text \<open>
  Claim C3. Every run of the root-finder is given the iteration cap 500, and when the
  root-finder raises for an event (as scipy does when the cap is used up without
  convergence), \<^verbatim>\<open>calculate_tcross\<close> raises: it returns no crossing times at all, so no
  value, sentinel or other, is recorded for that event.
\<close>

theorem root_search_failure_propagates:
  assumes "wf v_in"
    and "calculate_voltages v_in gain_post pedestal_length = Inr v"
    and "evt < dim0 v_in"
    and "0 < row_argmax (rows v ! evt)"
    and "fit (arange_times (dim1 v_in) dt) (rows v ! evt) = Inr spline"
    and "newton (\<lambda>x. spline x - row_max (rows v ! evt) * percent_thresh)
           (start_guess spline (arange_times (dim1 v_in) dt) (row_argmax (rows v ! evt))
              (row_max (rows v ! evt) * percent_thresh)) 500 = Inl e"
    and "calculate_tcross fit newton v_in percent_thresh dt gain_post pedestal_length = (calls, result)"
  shows "(\<exists>e'. result = Inl e')
         \<and> (\<forall>c\<in>set calls. call_maxiter c = None \<or> call_maxiter c = Some 500)"
proof (cases "dim1 v = 0")
  case True
  with assms(7) show ?thesis
    by (auto simp: calculate_tcross_loop [OF assms(2)])
next
  case False
  let ?time = "arange_times (dim1 v_in) dt"
  let ?idx = "map row_argmax (rows v)"
  let ?thr = "map (\<lambda>m. m * percent_thresh) (map row_max (rows v))"
  let ?event = "\<lambda>i. tcross_event fit newton ?time (rows v ! i) (?idx ! i) (?thr ! i) i"
  have loop: "tcross_loop fit newton ?time v ?idx ?thr [0..<dim0 v_in] [] (replicate (dim0 v_in) 0)
              = (calls, result)"
    using assms(7) False by (simp add: calculate_tcross_loop [OF assms(2)])
  have len: "length (rows v) = dim0 v_in"
    using assms(1,2) by (rule normalized_shape)
  have "snd (?event evt) = Inl e"
    using assms(3,4,5,6) len by (simp add: tcross_event_def)
  moreover have "evt \<in> set [0..<dim0 v_in]"
    using assms(3) by simp
  ultimately have "\<exists>e'. snd (tcross_loop fit newton ?time v ?idx ?thr [0..<dim0 v_in] []
                                 (replicate (dim0 v_in) 0)) = Inl e'"
    by (rule tcross_loop_raises [rotated])
  then have raised: "\<exists>e'. result = Inl e'"
    using loop by simp
  have cap: "call_maxiter c = None \<or> call_maxiter c = Some 500" if "c \<in> set calls" for c
  proof -
    have "c \<in> set (fst (tcross_loop fit newton ?time v ?idx ?thr [0..<dim0 v_in] []
                           (replicate (dim0 v_in) 0)))"
      using that loop by simp
    from tcross_loop_calls [OF this] obtain i where "c \<in> set (fst (?event i))"
      by auto
    from tcross_event_calls [OF this] show ?thesis
      by simp
  qed
  show ?thesis
    using raised cap by simp
qed


theorem root_search_failure_propagates_witness:
  "calculate_tcross fit_interp solve_at_root
     \<lparr>dim0 = 2, dim1 = 3, rows = [[5, 3, 1], [0, 1, 4]]\<rparr> (1 / 2) 1 1 1
   = ([Spline_fit 1, Newton_run 1 1 500], Inl RuntimeError)
   \<and> row_argmax [0, 1, 4] = 2
   \<and> call_maxiter (Newton_run 1 1 500) = Some 500"
proof -
  let ?v_in = "\<lparr>dim0 = 2, dim1 = 3, rows = [[5, 3, 1], [0, 1, 4 :: real]]\<rparr>"
  let ?v = "\<lparr>dim0 = 2, dim1 = 3, rows = [[0, - 2, - 4], [0, 1, 4 :: real]]\<rparr>"
  have w: "wf ?v_in"
    by (simp add: wf_def)
  have v: "calculate_voltages ?v_in 1 1 = Inr ?v"
    by (simp add: tcross_eval)
  have e: "(1::nat) < dim0 ?v_in"
    by simp
  have peak: "0 < row_argmax (rows ?v ! 1)"
    by (simp add: row_argmax_def row_max_def)
  have s: "fit_interp (arange_times (dim1 ?v_in) 1) (rows ?v ! 1) = Inr (interp [0, 1, 2] [0, 1, 4])"
    by (simp add: fit_interp_def arange_3)
  have n: "solve_at_root (\<lambda>x. interp [0, 1, 2] [0, 1, 4] x - row_max (rows ?v ! 1) * (1 / 2))
             (start_guess (interp [0, 1, 2] [0, 1, 4]) (arange_times (dim1 ?v_in) 1)
                (row_argmax (rows ?v ! 1)) (row_max (rows ?v ! 1) * (1 / 2))) 500
           = Inl RuntimeError"
    by (simp add: solve_at_root_def start_guess_def arange_3 row_argmax_def row_max_def
        row_argmin_def row_min_def)
  have t: "calculate_tcross fit_interp solve_at_root ?v_in (1 / 2) 1 1 1
           = ([Spline_fit 1, Newton_run 1 1 500], Inl RuntimeError)"
    unfolding calculate_tcross_def v
    by (simp add: np_argmax_def np_max_def arange_3 row_argmax_def row_max_def tcross_event_def
        fit_interp_def start_guess_def row_argmin_def row_min_def solve_at_root_def replicate_2
        upt_rec)
  from root_search_failure_propagates [OF w v e peak s n t] t show ?thesis
    by (simp add: row_argmax_def row_max_def)
qed


section \<open>Properties of the watch loop\<close>

lemma process_files_stops:
  assumes "\<forall>f\<in>set before. plotting_job f = Inr ()"
    and "plotting_job afile = Inl e"
  shows "process_files plotting_job (before @ afile # after) st
         = (st\<lparr>called := called st @ before @ [afile],
               processed_files := processed_files st \<union> set before\<rparr>, Some e)"
  using assms(1)
proof (induction before arbitrary: st)
  case Nil
  then show ?case by (simp add: assms(2))
next
  case (Cons f before)
  then show ?case by simp
qed

text \<open>
  Claim C9 says that an exception raised for one file does not end the watch loop, which
  goes on with the remaining files. The loop has no exception handler: with two files in
  the directory, the first of which makes \<^verbatim>\<open>plotting_job\<close> raise, the loop ends with that
  exception and \<^verbatim>\<open>plotting_job\<close> is never called on the second file.
\<close>

theorem watch_loop_not_isolated_counterexample:
  "watch_loop (\<lambda>f. if f = ''bad.hdf5'' then Inl RuntimeError else Inr ())
     [[''bad.hdf5'', ''good.hdf5''], [''bad.hdf5'', ''good.hdf5'']]
     \<lparr>called = [], processed_files = {}\<rparr>
   = (\<lparr>called = [''bad.hdf5''], processed_files = {}\<rparr>, Some RuntimeError)"
  by simp

text \<open>
  Claim C9, amended. Files are processed in sequence and without isolation: when
  \<^verbatim>\<open>plotting_job\<close> raises for a file, the exception ends the watch loop at that file. The
  files visited before it have been processed and are in \<^verbatim>\<open>processed_files\<close>;
  the failing file is not, and \<^verbatim>\<open>plotting_job\<close> is not called on the files after it.
\<close>

theorem watch_loop_stops_at_exception:
  assumes "filter (\<lambda>f. f \<notin> processed_files st) (remdups files) = before @ afile # after"
    and "\<forall>f\<in>set before. plotting_job f = Inr ()"
    and "plotting_job afile = Inl e"
  shows "watch_loop plotting_job (files # listings) st
         = (st\<lparr>called := called st @ before @ [afile],
               processed_files := processed_files st \<union> set before\<rparr>, Some e)"
  by (simp add: assms(1) process_files_stops [OF assms(2,3)])

theorem watch_loop_stops_at_exception_witness:
  "watch_loop (\<lambda>f. if f = ''bad.hdf5'' then Inl RuntimeError else Inr ())
     [[''a.hdf5'', ''bad.hdf5'', ''good.hdf5''], [''a.hdf5'', ''bad.hdf5'', ''good.hdf5'']]
     \<lparr>called = [], processed_files = {}\<rparr>
   = (\<lparr>called = [''a.hdf5'', ''bad.hdf5''], processed_files = {''a.hdf5''}\<rparr>, Some RuntimeError)"
  using watch_loop_stops_at_exception
    [of "\<lparr>called = [], processed_files = {}\<rparr>" "[''a.hdf5'', ''bad.hdf5'', ''good.hdf5'']"
        "[''a.hdf5'']" "''bad.hdf5''" "[''good.hdf5'']"
        "\<lambda>f. if f = ''bad.hdf5'' then Inl RuntimeError else Inr ()" RuntimeError
        "[[''a.hdf5'', ''bad.hdf5'', ''good.hdf5'']]"]
  by simp


section \<open>What the crossing time is\<close>

lemma length_takeWhile_less: "\<exists>x\<in>set xs. \<not> P x \<Longrightarrow> length (takeWhile P xs) < length xs"
  by (induction xs) auto

lemma row_min_Min: "r \<noteq> [] \<Longrightarrow> row_min r = Min (set r)"
  by (cases r) (simp_all add: row_min_def Min.set_eq_fold [symmetric])

lemma row_argmin_less: "r \<noteq> [] \<Longrightarrow> row_argmin r < length r"
proof -
  assume r: "r \<noteq> []"
  then have "Min (set r) \<in> set r"
    by (intro Min_in) simp_all
  then have "\<exists>x\<in>set r. \<not> x \<noteq> row_min r"
    using row_min_Min [OF r] by auto
  then show ?thesis
    unfolding row_argmin_def by (rule length_takeWhile_less)
qed

lemma row_argmax_le: "row_argmax r \<le> length r"
  by (simp add: row_argmax_def length_takeWhile_le)

lemma start_guess_sample:
  assumes "0 < idx" and "idx \<le> n"
  shows "\<exists>k<idx. start_guess spline (arange_times n dt) idx thr = real k * dt"
proof -
  let ?xs = "map (\<lambda>t. \<bar>spline t - thr\<bar>) (take idx (arange_times n dt))"
  have len: "length ?xs = idx"
    using assms by (simp add: arange_times_def)
  then have "?xs \<noteq> []"
    using assms(1) by auto
  then have k: "row_argmin ?xs < idx"
    using row_argmin_less [of ?xs] len by simp
  then have "arange_times n dt ! row_argmin ?xs = real (row_argmin ?xs) * dt"
    using assms(2) by (simp add: arange_times_def)
  with k show ?thesis
    unfolding start_guess_def by blast
qed

lemma arange_6: "arange_times 6 1 = [0, 1, 2, 3, 4, 5]"
  by (simp add: arange_times_def upt_rec)

lemma bump_normalized:
  "calculate_voltages \<lparr>dim0 = 1, dim1 = 6, rows = [[- 7, 6, 5, - 7, - 7, 10]]\<rparr> 1 400
   = Inr \<lparr>dim0 = 1, dim1 = 6, rows = [[- 7, 6, 5, - 7, - 7, 10]]\<rparr>"
  by (simp add: tcross_eval)

lemma bump_any_library:
  assumes "fit [0, 1, 2, 3, 4, 5] [- 7, 6, 5, - 7, - 7, 10] = Inr s"
    and "s 0 = - 7 \<and> s 1 = 6 \<and> s 2 = 5 \<and> s 3 = - 7 \<and> s 4 = - 7"
    and "newton (\<lambda>x. s x - 5) 2 500 = Inr 2"
  shows "calculate_tcross fit newton \<lparr>dim0 = 1, dim1 = 6, rows = [[- 7, 6, 5, - 7, - 7, 10]]\<rparr>
           (1 / 2) 1 1 400
         = ([Spline_fit 0, Newton_run 0 2 500], Inr [2])"
proof -
  have peak: "row_argmax [- 7, 6, 5, - 7, - 7, 10] = 5" "row_max [- 7, 6, 5, - 7, - 7, 10] = 10"
    by (simp_all add: row_argmax_def row_max_def)
  have start: "start_guess s [0, 1, 2, 3, 4, 5] 5 5 = 2"
    using assms(2) by (simp add: start_guess_def row_argmin_def row_min_def)
  show ?thesis
    unfolding calculate_tcross_def bump_normalized
    by (simp add: np_argmax_def np_max_def arange_6 peak tcross_event_def assms(1) start assms(3))
qed

text \<open>
  Claim C1 says that for an event with its peak after the first sample the returned
  crossing time is the first time the rising edge reaches \<open>p\<close> times the peak. The source
  starts the solver at the sample before the peak that is closest to the level, wherever
  that sample lies. In the waveform \<open>-7, 6, 5, -7, -7, 10\<close> (sample interval 1, gain 1, the
  default pedestal window, \<open>p = 1/2\<close>) the peak is 10 at index 5 and the level is 5. The
  waveform first reaches 5 between the times 0 and 1, and the rising edge that leads to
  the peak reaches it between the times 4 and 5. The sample at time 2, on the falling side
  of the first bump, is exactly 5, so the solver is started on a root and the crossing
  time returned is 2: after the sample 6 at time 1, and before the samples \<open>-7\<close> at the
  times 3 and 4. By \<open>bump_any_library\<close> this is so for every interpolant through the
  samples and every solver that returns a root it is started on.
\<close>

theorem first_crossing_counterexample:
  "calculate_tcross fit_interp solve_at_root
     \<lparr>dim0 = 1, dim1 = 6, rows = [[- 7, 6, 5, - 7, - 7, 10]]\<rparr> (1 / 2) 1 1 400
   = ([Spline_fit 0, Newton_run 0 2 500], Inr [2])
   \<and> calculate_voltages \<lparr>dim0 = 1, dim1 = 6, rows = [[- 7, 6, 5, - 7, - 7, 10]]\<rparr> 1 400
   = Inr \<lparr>dim0 = 1, dim1 = 6, rows = [[- 7, 6, 5, - 7, - 7, 10]]\<rparr>
   \<and> row_argmax [- 7, 6, 5, - 7, - 7, 10] = 5
   \<and> reached_before (arange_times 6 1) [- 7, 6, 5, - 7, - 7, 10]
        (row_max [- 7, 6, 5, - 7, - 7, 10] * (1 / 2)) 2
   \<and> below_after (arange_times 6 1) [- 7, 6, 5, - 7, - 7, 10]
        (row_max [- 7, 6, 5, - 7, - 7, 10] * (1 / 2)) 2 5"
proof -
  have "fit_interp [0, 1, 2, 3, 4, 5] [- 7, 6, 5, - 7, - 7, 10] = Inr (interp [0, 1, 2, 3, 4, 5] [- 7, 6, 5, - 7, - 7, 10])"
    by (simp add: fit_interp_def)
  moreover have "interp [0, 1, 2, 3, 4, 5] [- 7, 6, 5, - 7, - 7, 10] 0 = - 7
      \<and> interp [0, 1, 2, 3, 4, 5] [- 7, 6, 5, - 7, - 7, 10] 1 = 6
      \<and> interp [0, 1, 2, 3, 4, 5] [- 7, 6, 5, - 7, - 7, 10] 2 = 5
      \<and> interp [0, 1, 2, 3, 4, 5] [- 7, 6, 5, - 7, - 7, 10] 3 = - 7
      \<and> interp [0, 1, 2, 3, 4, 5] [- 7, 6, 5, - 7, - 7, 10] 4 = - 7"
    by simp
  moreover have "solve_at_root (\<lambda>x. interp [0, 1, 2, 3, 4, 5] [- 7, 6, 5, - 7, - 7, 10] x - 5) 2 500 = Inr 2"
    by (simp add: solve_at_root_def)
  ultimately have "calculate_tcross fit_interp solve_at_root
     \<lparr>dim0 = 1, dim1 = 6, rows = [[- 7, 6, 5, - 7, - 7, 10]]\<rparr> (1 / 2) 1 1 400
   = ([Spline_fit 0, Newton_run 0 2 500], Inr [2])"
    by (rule bump_any_library)
  moreover have "row_argmax [- 7, 6, 5, - 7, - 7, 10] = 5"
    by (simp add: row_argmax_def row_max_def)
  moreover have "reached_before (arange_times 6 1) [- 7, 6, 5, - 7, - 7, 10]
        (row_max [- 7, 6, 5, - 7, - 7, 10] * (1 / 2)) 2"
    by (simp add: reached_before_def arange_6 row_max_def)
  moreover have "below_after (arange_times 6 1) [- 7, 6, 5, - 7, - 7, 10]
        (row_max [- 7, 6, 5, - 7, - 7, 10] * (1 / 2)) 2 5"
    by (simp add: below_after_def arange_6 row_max_def)
  ultimately show ?thesis
    using bump_normalized by simp
qed


lemma solve_at_root_contract: "solve_at_root f x0 maxiter = Inr r \<Longrightarrow> f r = 0"
  by (auto simp: solve_at_root_def split: if_splits)

text \<open>
  Claim C1, amended. For an event whose peak is at a sample index greater than 0, when
  \<^verbatim>\<open>calculate_tcross\<close> returns, the crossing time of the event is what the root-finder
  returns, with the iteration cap 500, for \<open>interpolant(t) - p * peak = 0\<close>, the threshold
  being \<open>p\<close> times the event's own peak, started at a sample time \<open>k * dt\<close> before the
  peak: the one whose interpolated value is closest to the threshold. When the
  root-finder only returns roots, the interpolant equals the threshold at the crossing
  time. It need not be the first such time.
\<close>

theorem crossing_time_is_solver_result:
  assumes "wf v_in"
    and "calculate_voltages v_in gain_post pedestal_length = Inr v"
    and "evt < dim0 v_in"
    and "0 < row_argmax (rows v ! evt)"
    and "calculate_tcross fit newton v_in percent_thresh dt gain_post pedestal_length = (calls, Inr t0s)"
  shows "\<exists>spline k.
           fit (arange_times (dim1 v_in) dt) (rows v ! evt) = Inr spline
         \<and> k < row_argmax (rows v ! evt)
         \<and> start_guess spline (arange_times (dim1 v_in) dt) (row_argmax (rows v ! evt))
              (row_max (rows v ! evt) * percent_thresh) = real k * dt
         \<and> newton (\<lambda>x. spline x - row_max (rows v ! evt) * percent_thresh) (real k * dt) 500
             = Inr (t0s ! evt)
         \<and> ((\<forall>f x0 r. newton f x0 500 = Inr r \<longrightarrow> f r = 0)
              \<longrightarrow> spline (t0s ! evt) = row_max (rows v ! evt) * percent_thresh)"
proof -
  let ?time = "arange_times (dim1 v_in) dt"
  let ?idx = "map row_argmax (rows v)"
  let ?thr = "map (\<lambda>m. m * percent_thresh) (map row_max (rows v))"
  let ?event = "\<lambda>i. tcross_event fit newton ?time (rows v ! i) (?idx ! i) (?thr ! i) i"
  let ?peak = "row_argmax (rows v ! evt)"
  let ?level = "row_max (rows v ! evt) * percent_thresh"
  have nonempty: "dim1 v \<noteq> 0"
    using assms(5) by (auto simp: calculate_tcross_loop [OF assms(2)] split: if_splits)
  then have loop: "tcross_loop fit newton ?time v ?idx ?thr [0..<dim0 v_in] [] (replicate (dim0 v_in) 0)
              = (calls, Inr t0s)"
    using assms(5) by (simp add: calculate_tcross_loop [OF assms(2)])
  have len: "length (rows v) = dim0 v_in"
    using assms(1,2) by (rule normalized_shape)
  have event: "snd (?event evt) = Inr (t0s ! evt)"
    by (rule tcross_loop_value [OF loop]) (use assms(3) in simp_all)
  have unfold: "?event evt = tcross_event fit newton ?time (rows v ! evt) ?peak ?level evt"
    using assms(3) len by simp
  from event assms(4) obtain spline where
    fit: "fit ?time (rows v ! evt) = Inr spline" and
    solve: "newton (\<lambda>x. spline x - ?level) (start_guess spline ?time ?peak ?level) 500 = Inr (t0s ! evt)"
    unfolding unfold by (auto simp: tcross_event_def Let_def split: sum.splits)
  have row_len: "length (rows v ! evt) = dim1 v_in"
  proof -
    have "wf v"
      using assms(2) assms(1)
      by (auto simp: calculate_voltages_rows [OF assms(1)] wf_def list_all_iff split: if_splits)
    then have "length (rows v ! evt) = dim1 v"
      using assms(3) normalized_shape(3) [OF assms(1,2)] by (simp add: wf_rows)
    then show ?thesis
      using normalized_shape(2) [OF assms(1,2)] by simp
  qed
  have "?peak \<le> dim1 v_in"
    using row_argmax_le [of "rows v ! evt"] row_len by simp
  from start_guess_sample [OF assms(4) this] obtain k where
    k: "k < ?peak" "start_guess spline ?time ?peak ?level = real k * dt"
    by blast
  have "spline (t0s ! evt) = ?level" if "\<forall>f x0 r. newton f x0 500 = Inr r \<longrightarrow> f r = 0"
    using that solve by fastforce
  with fit k solve show ?thesis
    by auto
qed


theorem crossing_time_is_solver_result_witness:
  "calculate_tcross fit_interp solve_at_root
     \<lparr>dim0 = 1, dim1 = 6, rows = [[0, 0, 2, 4, 2, 0]]\<rparr> (1 / 2) 1 1 1
   = ([Spline_fit 0, Newton_run 0 2 500], Inr [2])
   \<and> row_argmax [0, 0, 2, 4, 2, 0] = 3
   \<and> interp (arange_times 6 1) [0, 0, 2, 4, 2, 0] ([2] ! 0) = row_max [0, 0, 2, 4, 2, 0] * (1 / 2)"
proof -
  let ?v = "\<lparr>dim0 = 1, dim1 = 6, rows = [[0, 0, 2, 4, 2, 0 :: real]]\<rparr>"
  have w: "wf ?v"
    by (simp add: wf_def)
  have v: "calculate_voltages ?v 1 1 = Inr ?v"
    by (simp add: tcross_eval)
  have e: "0 < dim0 ?v"
    by simp
  have peak: "row_argmax [0, 0, 2, 4, 2, 0] = 3" "row_max [0, 0, 2, 4, 2, 0] = 4"
    by (simp_all add: row_argmax_def row_max_def)
  then have p: "0 < row_argmax (rows ?v ! 0)"
    by simp
  have t: "calculate_tcross fit_interp solve_at_root ?v (1 / 2) 1 1 1
           = ([Spline_fit 0, Newton_run 0 2 500], Inr [2])"
    unfolding calculate_tcross_def v
    by (simp add: np_argmax_def np_max_def arange_6 peak tcross_event_def fit_interp_def
        start_guess_def row_argmin_def row_min_def solve_at_root_def)
  from crossing_time_is_solver_result [OF w v e p t] obtain spline where
    "fit_interp (arange_times (dim1 ?v) 1) (rows ?v ! 0) = Inr spline"
    "(\<forall>f x0 r. solve_at_root f x0 500 = Inr r \<longrightarrow> f r = 0)
       \<longrightarrow> spline ([2] ! 0) = row_max (rows ?v ! 0) * (1 / 2)"
    by blast
  then have "interp (arange_times 6 1) [0, 0, 2, 4, 2, 0] ([2] ! 0) = row_max [0, 0, 2, 4, 2, 0] * (1 / 2)"
    using solve_at_root_contract by (auto simp: fit_interp_def)
  with t peak(1) show ?thesis
    by simp
qed


end
